theory Spec2Isabelle
  imports Complex_Main
begin

section \<open>Python values\<close>

text \<open>
  The payloads handled by the store and produced by the chunker are Python dicts with
  string keys. A dict is an association list (insertion order kept, looked up with
  \<open>map_of\<close>); the values are the JSON-shaped Python values the ingestion pipeline
  builds.

  A Python float is an IEEE 754 double: a real number that a double can hold, one of
  the two infinities, or the value that is not a number. The zero of either sign is
  \<open>Fin 0\<close> (the two compare equal). The float32 entries of numpy arrays are idealised
  as real numbers.
\<close>

datatype pyfloat = Fin real | PosInf | NegInf | NaN

datatype pyval =
    PNone
  | PBool bool
  | PInt int
  | PFloat pyfloat
  | PStr string
  | PList "pyval list"
  | PDict "(string \<times> pyval) list"

type_synonym pydict = "(string \<times> pyval) list"

text \<open>\<open>d.get(key, default)\<close>\<close>

definition dict_get :: "pydict \<Rightarrow> string \<Rightarrow> pyval \<Rightarrow> pyval" where
  "dict_get dct key dflt = (case map_of dct key of None \<Rightarrow> dflt | Some v \<Rightarrow> v)"

text \<open>
  \<open>xs[i]\<close> for a Python list: a negative index counts from the end, an index out of
  range raises IndexError (here \<open>None\<close>).
\<close>

definition py_index :: "'a list \<Rightarrow> int \<Rightarrow> 'a option" where
  "py_index xs i =
     (if 0 \<le> i \<and> i < int (length xs) then Some (xs ! nat i)
      else if i < 0 \<and> - int (length xs) \<le> i then Some (xs ! nat (int (length xs) + i))
      else None)"

section \<open>numpy arrays\<close>

text \<open>
  A numpy array of one dimension (shape \<open>(n,)\<close>) or of two (shape
  \<open>(n, m)\<close>, kept as the column count \<open>m\<close> and the \<open>n\<close> rows). numpy itself guarantees
  that every row of a 2-D array has \<open>m\<close> entries; \<open>wf_array\<close> states it. The entries
  are finite float32 numbers, taken as the real numbers they stand for.
\<close>

datatype ndarray = Arr1 "real list" | Arr2 nat "real list list"

fun shape0 :: "ndarray \<Rightarrow> nat" where
  "shape0 (Arr1 v) = length v"
| "shape0 (Arr2 m rs) = length rs"

fun wf_array :: "ndarray \<Rightarrow> bool" where
  "wf_array (Arr1 v) = True"
| "wf_array (Arr2 m rs) = list_all (\<lambda>r. length r = m) rs"

text \<open>\<open>query.reshape(1, -1)\<close> applied when \<open>query.ndim == 1\<close>\<close>

fun reshape_row :: "ndarray \<Rightarrow> ndarray" where
  "reshape_row (Arr1 v) = Arr2 (length v) [v]"
| "reshape_row (Arr2 m rs) = Arr2 m rs"

section \<open>Errors\<close>

text \<open>
  \<open>ShapeMismatch n m\<close> is the \<open>ValueError("Mismatch: n embeddings vs m chunks.")\<close>
  that \<open>FAISSStore.add\<close> raises itself. The others are raised below it:
  \<open>FaissAssertion\<close> is the AssertionError of the index library's \<open>add\<close> and
  \<open>search\<close> wrappers (\<open>assert d == self.d\<close>, \<open>assert k > 0\<close>), \<open>UnpackError\<close> the
  ValueError of their \<open>n, d = x.shape\<close> on an array that is not 2-D, and \<open>IndexError\<close>
  Python's own on a list or array index out of range.
\<close>

datatype error =
    ShapeMismatch nat nat
  | FaissAssertion
  | UnpackError
  | IndexError

section \<open>The flat L2 index\<close>

text \<open>
  \<open>faiss.IndexFlatL2(d)\<close>: the dimension and the stored vectors in insertion order.
  The index is the library's, not the repository's; this is its documented behaviour:
  \<open>add\<close> appends the rows, \<open>search\<close> compares the query with every stored vector by
  squared Euclidean distance and returns, per query row, the \<open>k\<close> smallest distances in
  ascending order with the positions of their vectors. The result slots start out
  holding the largest float32, \<open>flt_max\<close>, with label \<open>-1\<close>, and a vector takes a slot
  only if its distance is below what the slot holds: a vector whose distance is not
  below \<open>flt_max\<close> (the float32 computation overflowed) is never returned, and the
  slots left over keep label \<open>-1\<close>. The order among equal distances is the library's;
  a stable sort by distance stands for it here.
\<close>

record faiss_index =
  idx_d :: nat
  idx_xb :: "real list list"

definition IndexFlatL2 :: "nat \<Rightarrow> faiss_index" where
  "IndexFlatL2 dm = \<lparr>idx_d = dm, idx_xb = []\<rparr>"

definition ntotal :: "faiss_index \<Rightarrow> nat" where
  "ntotal ix = length (idx_xb ix)"

definition l2sq :: "real list \<Rightarrow> real list \<Rightarrow> real" where
  "l2sq x y = sum_list (map (\<lambda>(a, b). (a - b)\<^sup>2) (zip x y))"

fun index_add :: "faiss_index \<Rightarrow> ndarray \<Rightarrow> error + faiss_index" where
  "index_add ix (Arr1 v) = Inl UnpackError"
| "index_add ix (Arr2 m rs) =
     (if m \<noteq> idx_d ix then Inl FaissAssertion
      else Inr (ix\<lparr>idx_xb := idx_xb ix @ rs\<rparr>))"

definition flt_max :: real where
  "flt_max = 340282346638528859811704183484516925440"

definition ranked :: "faiss_index \<Rightarrow> real list \<Rightarrow> nat \<Rightarrow> nat list" where
  "ranked ix q k =
     take k (sort_key (\<lambda>i. l2sq q (idx_xb ix ! i))
               (filter (\<lambda>i. l2sq q (idx_xb ix ! i) < flt_max) [0..<ntotal ix]))"

definition index_search_row :: "faiss_index \<Rightarrow> real list \<Rightarrow> nat \<Rightarrow> real list \<times> int list" where
  "index_search_row ix q k =
     (let r = ranked ix q k
      in (map (\<lambda>i. l2sq q (idx_xb ix ! i)) r @ replicate (k - length r) flt_max,
          map int r @ replicate (k - length r) (- 1)))"

fun index_search :: "faiss_index \<Rightarrow> ndarray \<Rightarrow> int \<Rightarrow> error + (real list \<times> int list) list" where
  "index_search ix (Arr1 v) k = Inl UnpackError"
| "index_search ix (Arr2 m rs) k =
     (if m \<noteq> idx_d ix then Inl FaissAssertion
      else if k \<le> 0 then Inl FaissAssertion
      else Inr (map (\<lambda>q. index_search_row ix q (nat k)) rs))"

section \<open>FAISSStore\<close>

record store =
  dimension :: nat
  index :: faiss_index
  chunks :: "pydict list"

text \<open>\<open>FAISSStore.__init__\<close>\<close>

definition init :: "nat \<Rightarrow> store" where
  "init dm = \<lparr>dimension = dm, index = IndexFlatL2 dm, chunks = []\<rparr>"

text \<open>
  The methods take the store and return their result together with the store they
  leave behind; a raised exception is \<open>Inl\<close> (or \<open>Some\<close> for \<open>add\<close>, which returns
  nothing), paired with the store as it is when the exception leaves the method.
\<close>

definition count :: "store \<Rightarrow> nat \<times> store" where
  "count s = (ntotal (index s), s)"

definition add :: "store \<Rightarrow> ndarray \<Rightarrow> pydict list \<Rightarrow> error option \<times> store" where
  "add s embeddings cs =
     (if shape0 embeddings \<noteq> length cs
      then (Some (ShapeMismatch (shape0 embeddings) (length cs)), s)
      else (case index_add (index s) embeddings of
              Inl e \<Rightarrow> (Some e, s)
            | Inr ix \<Rightarrow> (None, s\<lparr>index := ix, chunks := chunks s @ cs\<rparr>)))"

record match =
  match_text :: pyval
  match_metadata :: pyval
  match_score :: real

text \<open>The loop of \<open>search\<close> over \<open>zip(distances[0], indices[0])\<close>.\<close>

fun collect :: "pydict list \<Rightarrow> (real \<times> int) list \<Rightarrow> error + match list" where
  "collect cs [] = Inr []"
| "collect cs ((dst, i) # rest) =
     (if i = - 1 then collect cs rest
      else (case py_index cs i of
              None \<Rightarrow> Inl IndexError
            | Some chunk \<Rightarrow>
                (case collect cs rest of
                   Inl e \<Rightarrow> Inl e
                 | Inr ms \<Rightarrow>
                     Inr (\<lparr>match_text = dict_get chunk ''text'' (PStr ''''),
                           match_metadata = dict_get chunk ''metadata'' (PDict []),
                           match_score = dst\<rparr> # ms))))"

definition search :: "store \<Rightarrow> ndarray \<Rightarrow> int \<Rightarrow> (error + match list) \<times> store" where
  "search s query_embedding top_k =
     (if ntotal (index s) = 0 then (Inr [], s)
      else
        (let query = reshape_row query_embedding;
             k = min top_k (int (ntotal (index s)))
         in (case index_search (index s) query k of
               Inl e \<Rightarrow> (Inl e, s)
             | Inr [] \<Rightarrow> (Inl IndexError, s)
             | Inr ((distances, indices) # _) \<Rightarrow> (collect (chunks s) (zip distances indices), s))))"

text \<open>
  What the construction keeps true of a store: the index was built for the store's
  dimension, every indexed vector has that length, and there is one payload per vector.
\<close>

definition store_inv :: "store \<Rightarrow> bool" where
  "store_inv s \<longleftrightarrow>
     idx_d (index s) = dimension s \<and>
     length (chunks s) = ntotal (index s) \<and>
     list_all (\<lambda>v. length v = dimension s) (idx_xb (index s))"

text \<open>
  The precondition of \<open>add\<close> on a store of dimension \<open>dm\<close>: a matrix with as many rows
  as there are payloads, every row of length \<open>dm\<close>.
\<close>

fun add_pre :: "nat \<Rightarrow> ndarray \<times> pydict list \<Rightarrow> bool" where
  "add_pre dm (Arr1 v, cs) = False"
| "add_pre dm (Arr2 m rs, cs) =
     (length rs = length cs \<and> m = dm \<and> list_all (\<lambda>r. length r = dm) rs)"

fun array_rows :: "ndarray \<Rightarrow> real list list" where
  "array_rows (Arr1 v) = []"
| "array_rows (Arr2 m rs) = rs"

text \<open>A sequence of \<open>add\<close> calls, each on the store the previous one left.\<close>

fun run_adds :: "store \<Rightarrow> (ndarray \<times> pydict list) list \<Rightarrow> store" where
  "run_adds s [] = s"
| "run_adds s ((e, cs) # bs) = run_adds (snd (add s e cs)) bs"

text \<open>
  A query for a store of dimension \<open>dm\<close>: a vector of length \<open>dm\<close> or a matrix of one
  such row; \<open>query_vec\<close> is the vector it holds.
\<close>

fun query_ok :: "nat \<Rightarrow> ndarray \<Rightarrow> bool" where
  "query_ok dm (Arr1 v) = (length v = dm)"
| "query_ok dm (Arr2 m rs) = (m = dm \<and> length rs = 1 \<and> list_all (\<lambda>r. length r = dm) rs)"

fun query_vec :: "ndarray \<Rightarrow> real list" where
  "query_vec (Arr1 v) = v"
| "query_vec (Arr2 m rs) = hd rs"

text \<open>The match that \<open>search\<close> builds for the vector at position \<open>i\<close>.\<close>

definition match_at :: "store \<Rightarrow> real list \<Rightarrow> nat \<Rightarrow> match" where
  "match_at s q i =
     \<lparr>match_text = dict_get (chunks s ! i) ''text'' (PStr ''''),
      match_metadata = dict_get (chunks s ! i) ''metadata'' (PDict []),
      match_score = l2sq q (idx_xb (index s) ! i)\<rparr>"

subsection \<open>Persistence\<close>

text \<open>
  The file system maps a path to what was written there. \<open>faiss.write_index\<close> and
  \<open>faiss.read_index\<close> store and restore the index as it is; \<open>json.dump\<close> followed by
  \<open>json.load\<close> gives back the same list for payloads made of JSON values, which is
  what \<open>pyval\<close> holds. Writing never fails here; reading a path that holds no
  artifact of the expected kind raises.
\<close>

datatype artifact = IndexFile faiss_index | ChunksFile "pydict list"

type_synonym filesystem = "string \<rightharpoonup> artifact"

datatype io_error = ReadError string

text \<open>\<open>os.path.join(directory, name)\<close> for a relative \<open>name\<close>\<close>

definition path_join :: "string \<Rightarrow> string \<Rightarrow> string" where
  "path_join a b = (if a = [] \<or> last a = CHR ''/'' then a @ b else a @ ''/'' @ b)"

definition save :: "store \<Rightarrow> string \<Rightarrow> filesystem \<Rightarrow> filesystem" where
  "save s directory fs =
     (fs(path_join directory ''index.faiss'' \<mapsto> IndexFile (index s)))
        (path_join directory ''chunks.json'' \<mapsto> ChunksFile (chunks s))"

definition load :: "filesystem \<Rightarrow> string \<Rightarrow> nat \<Rightarrow> io_error + store" where
  "load fs directory dm =
     (let st = init dm
      in (case fs (path_join directory ''index.faiss'') of
            Some (IndexFile ix) \<Rightarrow>
              (case fs (path_join directory ''chunks.json'') of
                 Some (ChunksFile cs) \<Rightarrow> Inr (st\<lparr>index := ix, chunks := cs\<rparr>)
               | _ \<Rightarrow> Inl (ReadError (path_join directory ''chunks.json'')))
          | _ \<Rightarrow> Inl (ReadError (path_join directory ''index.faiss''))))"

section \<open>Double-precision arithmetic\<close>







text \<open>\<open>2 ^ 1024\<close>, the least magnitude that no double holds.\<close>

definition overflow_threshold :: real where
  "overflow_threshold = 179769313486231590772930519078902473361797697894230657273430081157732675805500963132708477322407536021120113879871393357658789768814416622492847430639474124377767893424865485276302219601246094119453082952085005768838150682342462881473913110540827237163350510684586298239947245938479716304835356329624224137216"









section \<open>The numeric tool\<close>











section \<open>The chunker\<close>

text \<open>
  Text is a list of characters with code points below 256. \<open>is_space\<close> is what
  \<open>\s\<close> and \<open>str.strip\<close> take for whitespace among them.
\<close>

definition is_space :: "char \<Rightarrow> bool" where
  "is_space c =
     (let n = (of_char c :: nat)
      in (9 \<le> n \<and> n \<le> 13) \<or> (28 \<le> n \<and> n \<le> 32) \<or> n = 133 \<or> n = 160)"

definition is_punct :: "char \<Rightarrow> bool" where
  "is_punct c = (c = CHR ''.'' \<or> c = CHR ''!'' \<or> c = CHR ''?'')"

text \<open>
  \<open>re.split(r"(?<=[.!?])\s+", text)\<close>: a separator is a maximal run of whitespace
  that starts right after one of \<open>.!?\<close>. \<open>after_punct\<close> says whether the previous
  character was one of them, \<open>cur\<close> is the piece read so far.
\<close>

function re_split :: "bool \<Rightarrow> string \<Rightarrow> string \<Rightarrow> string list" where
  "re_split after_punct cur [] = [cur]"
| "re_split after_punct cur (c # cs) =
     (if after_punct \<and> is_space c
      then cur # re_split False [] (dropWhile is_space cs)
      else re_split (is_punct c) (cur @ [c]) cs)"
  by pat_completeness auto
termination
  by (relation "measure (\<lambda>(a, cur, cs). length cs)")
     (auto simp: less_Suc_eq_le length_dropWhile_le)

definition strip :: "string \<Rightarrow> string" where
  "strip s = rev (dropWhile is_space (rev (dropWhile is_space s)))"

definition split_sentences :: "string \<Rightarrow> string list" where
  "split_sentences txt =
     map strip (filter (\<lambda>s. strip s \<noteq> []) (re_split False [] txt))"

definition APPROX_CHARS_PER_TOKEN :: int where
  "APPROX_CHARS_PER_TOKEN = 4"

definition estimate_tokens :: "string \<Rightarrow> int" where
  "estimate_tokens txt = int (length txt) div APPROX_CHARS_PER_TOKEN"

text \<open>\<open>" ".join(sentences)\<close>\<close>

fun join_space :: "string list \<Rightarrow> string" where
  "join_space [] = []"
| "join_space [s] = s"
| "join_space (s # t # ss) = s @ '' '' @ join_space (t # ss)"

definition build_chunk :: "string list \<Rightarrow> int \<Rightarrow> string \<Rightarrow> pydict" where
  "build_chunk sentences idx source =
     (let txt = join_space sentences
      in [(''text'', PStr txt),
          (''metadata'', PDict [(''chunk_index'', PInt idx),
                               (''source'', PStr source),
                               (''estimated_tokens'', PInt (estimate_tokens txt))])])"

text \<open>
  The loop of \<open>chunk_text\<close> over the sentences, with its three variables, and the
  flush after it.
\<close>

fun chunk_loop ::
  "int \<Rightarrow> string \<Rightarrow> pydict list \<Rightarrow> string list \<Rightarrow> int \<Rightarrow> string list
     \<Rightarrow> pydict list \<times> string list \<times> int" where
  "chunk_loop chunk_size source cks current_sentences current_tokens [] =
     (cks, current_sentences, current_tokens)"
| "chunk_loop chunk_size source cks current_sentences current_tokens (sentence # rest) =
     (let sentence_tokens = estimate_tokens sentence
      in if sentence_tokens \<ge> chunk_size
         then
           (if current_sentences \<noteq> []
            then
              (let cks1 = cks @ [build_chunk current_sentences (int (length cks)) source]
               in chunk_loop chunk_size source
                    (cks1 @ [build_chunk [sentence] (int (length cks1)) source]) [] 0 rest)
            else
              chunk_loop chunk_size source
                (cks @ [build_chunk [sentence] (int (length cks)) source])
                current_sentences current_tokens rest)
         else
           (if current_tokens + sentence_tokens > chunk_size \<and> current_sentences \<noteq> []
            then
              chunk_loop chunk_size source
                (cks @ [build_chunk current_sentences (int (length cks)) source])
                [sentence] (0 + sentence_tokens) rest
            else
              chunk_loop chunk_size source cks
                (current_sentences @ [sentence]) (current_tokens + sentence_tokens) rest))"

definition chunk_text :: "string \<Rightarrow> int \<Rightarrow> string \<Rightarrow> pydict list" where
  "chunk_text txt chunk_size source =
     (case chunk_loop chunk_size source [] [] 0 (split_sentences txt) of
        (cks, current_sentences, current_tokens) \<Rightarrow>
          if current_sentences \<noteq> []
          then cks @ [build_chunk current_sentences (int (length cks)) source]
          else cks)"

definition DEFAULT_CHUNK_SIZE :: int where
  "DEFAULT_CHUNK_SIZE = 400"

text \<open>The chunks built from consecutive groups of sentences, numbered from 0.\<close>

definition chunks_of_groups :: "string \<Rightarrow> string list list \<Rightarrow> pydict list" where
  "chunks_of_groups source groups =
     map (\<lambda>(i, g). build_chunk g (int i) source) (enumerate 0 groups)"

text \<open>
  The sentences of one chunk: at least one, and either a single sentence or sentences
  that are each below the budget.
\<close>

definition group_ok :: "int \<Rightarrow> string list \<Rightarrow> bool" where
  "group_ok chunk_size g \<longleftrightarrow>
     g \<noteq> [] \<and> (length g = 1 \<or> list_all (\<lambda>s. estimate_tokens s < chunk_size) g)"

text \<open>The \<open>chunk_index\<close> a chunk carries in its metadata.\<close>

definition chunk_index :: "pydict \<Rightarrow> pyval option" where
  "chunk_index c =
     (case map_of c ''metadata'' of
        Some (PDict m) \<Rightarrow> map_of m ''chunk_index''
      | _ \<Rightarrow> None)"

section \<open>Properties of the store\<close>

subsection \<open>What the index returns\<close>

lemma py_index_nat: "i < length xs \<Longrightarrow> py_index xs (int i) = Some (xs ! i)"
  by (simp add: py_index_def)

lemma collect_padding: "collect cs (replicate p (x, - 1)) = Inr []"
  by (induction p) simp_all

lemma collect_ranked:
  "list_all (\<lambda>i. i < length (chunks s)) r \<Longrightarrow>
   collect (chunks s)
     (zip (map (\<lambda>i. l2sq q (idx_xb (index s) ! i)) r) (map int r) @ replicate p (x, - 1))
   = Inr (map (match_at s q) r)"
proof (induction r)
  case Nil
  then show ?case by (simp add: collect_padding)
next
  case (Cons i r)
  then show ?case by (simp add: py_index_nat match_at_def)
qed

lemma ranked_bound: "list_all (\<lambda>i. i < ntotal ix) (ranked ix q k)"
  by (auto simp: ranked_def list_all_iff dest: in_set_takeD)

lemma filter_positions:
  "length (filter (\<lambda>i. P (xs ! i)) [0..<length xs]) = length (filter P xs)"
proof -
  have "filter P (map ((!) xs) [0..<length xs]) =
        map ((!) xs) (filter (P \<circ> (!) xs) [0..<length xs])"
    by (rule filter_map)
  then have "length (filter P xs) = length (filter (P \<circ> (!) xs) [0..<length xs])"
    by (simp add: map_nth)
  then show ?thesis by (simp add: comp_def)
qed

lemma length_ranked:
  "length (ranked ix q k) = min k (length (filter (\<lambda>v. l2sq q v < flt_max) (idx_xb ix)))"
  using filter_positions[of "\<lambda>v. l2sq q v < flt_max" "idx_xb ix"]
  by (simp add: ranked_def ntotal_def min.commute)

lemma sorted_ranked: "sorted (map (\<lambda>i. l2sq q (idx_xb ix ! i)) (ranked ix q k))"
proof -
  let ?el = "filter (\<lambda>i. l2sq q (idx_xb ix ! i) < flt_max) [0..<ntotal ix]"
  have "sorted (map (\<lambda>i. l2sq q (idx_xb ix ! i)) (sort_key (\<lambda>i. l2sq q (idx_xb ix ! i)) ?el))"
    by (rule sorted_sort_key)
  then have "sorted (take k (map (\<lambda>i. l2sq q (idx_xb ix ! i)) (sort_key (\<lambda>i. l2sq q (idx_xb ix ! i)) ?el)))"
    by (rule sorted_wrt_take)
  then show ?thesis by (simp add: ranked_def take_map)
qed

lemma search_result:
  assumes inv: "store_inv s" and ne: "0 < ntotal (index s)"
    and q: "query_ok (dimension s) q" and k: "0 < top_k"
  shows "fst (search s q top_k) =
           Inr (map (match_at s (query_vec q))
                  (ranked (index s) (query_vec q) (nat (min top_k (int (ntotal (index s)))))))"
proof -
  let ?k = "min top_k (int (ntotal (index s)))"
  have kpos: "\<not> ?k \<le> 0" using ne k by simp
  have d: "idx_d (index s) = dimension s" and len: "length (chunks s) = ntotal (index s)"
    using inv by (simp_all add: store_inv_def)
  have bound: "list_all (\<lambda>i. i < length (chunks s)) (ranked (index s) (query_vec q) (nat ?k))"
    using ranked_bound[of "index s"] by (simp add: len)
  obtain m v where r: "reshape_row q = Arr2 m [v]" and m: "m = dimension s" and v: "query_vec q = v"
  proof (cases q)
    case (Arr1 w)
    with q that show ?thesis by simp
  next
    case (Arr2 m' rs)
    with q obtain w where "rs = [w]" by (cases rs) auto
    with Arr2 q that show ?thesis by simp
  qed
  have "index_search (index s) (reshape_row q) ?k = Inr [index_search_row (index s) v (nat ?k)]"
    using kpos d by (simp only: r m index_search.simps list.map if_False simp_thms)
  then show ?thesis
    using ne bound
    by (simp add: search_def Let_def index_search_row_def collect_ranked v)
qed

lemma search_empty: "ntotal (index s) = 0 \<Longrightarrow> fst (search s q top_k) = Inr []"
  by (simp add: search_def)

subsection \<open>Adding keeps the store aligned\<close>

lemma add_success:
  "add_pre (dimension s) (e, cs) \<Longrightarrow> idx_d (index s) = dimension s \<Longrightarrow>
   add s e cs = (None, s\<lparr>index := (index s)\<lparr>idx_xb := idx_xb (index s) @ array_rows e\<rparr>,
                          chunks := chunks s @ cs\<rparr>)"
  by (cases e) (simp_all add: add_def)

lemma store_inv_init: "store_inv (init dm)"
  by (simp add: store_inv_def init_def IndexFlatL2_def ntotal_def)

lemma store_inv_add:
  "store_inv s \<Longrightarrow> add_pre (dimension s) (e, cs) \<Longrightarrow> store_inv (snd (add s e cs))"
  by (cases e) (auto simp: add_def store_inv_def ntotal_def)

lemma dimension_add: "dimension (snd (add s e cs)) = dimension s"
  by (cases e) (auto simp: add_def split: sum.splits)

lemma run_adds_aligned:
  "store_inv s \<Longrightarrow> list_all (add_pre (dimension s)) bs \<Longrightarrow>
   store_inv (run_adds s bs) \<and> dimension (run_adds s bs) = dimension s \<and>
   zip (idx_xb (index (run_adds s bs))) (chunks (run_adds s bs)) =
     zip (idx_xb (index s)) (chunks s) @ concat (map (\<lambda>(e, cs). zip (array_rows e) cs) bs)"
proof (induction bs arbitrary: s)
  case Nil
  then show ?case by simp
next
  case (Cons b bs)
  obtain e cs where b: "b = (e, cs)" by (cases b)
  from Cons.prems have pre: "add_pre (dimension s) (e, cs)" and rest: "list_all (add_pre (dimension s)) bs"
    by (simp_all add: b)
  let ?s = "snd (add s e cs)"
  have inv: "store_inv ?s" using Cons.prems(1) pre by (rule store_inv_add)
  have dm: "dimension ?s = dimension s" by (rule dimension_add)
  have len: "length (idx_xb (index s)) = length (chunks s)"
    using Cons.prems(1) by (simp add: store_inv_def ntotal_def)
  have step: "zip (idx_xb (index ?s)) (chunks ?s) = zip (idx_xb (index s)) (chunks s) @ zip (array_rows e) cs"
    using pre Cons.prems(1) len by (simp add: add_success store_inv_def)
  from Cons.IH[OF inv] rest dm step show ?case by (simp add: b)
qed

text \<open>
  Claim C1. In every store built from a fresh one by \<open>add\<close> calls whose preconditions
  hold, there are as many payloads as indexed vectors, the pairs of vector and payload
  at equal positions are exactly the pairs that were added, in the order they were
  added, and every position the index ranks for a query has a payload.
\<close>

theorem add_keeps_alignment:
  assumes "list_all (add_pre dm) bs"
  shows "length (chunks (run_adds (init dm) bs)) = fst (count (run_adds (init dm) bs)) \<and>
         zip (idx_xb (index (run_adds (init dm) bs))) (chunks (run_adds (init dm) bs)) =
           concat (map (\<lambda>(e, cs). zip (array_rows e) cs) bs) \<and>
         list_all (\<lambda>i. i < length (chunks (run_adds (init dm) bs)))
           (ranked (index (run_adds (init dm) bs)) q k)"
proof -
  let ?s = "run_adds (init dm) bs"
  have d0: "dimension (init dm) = dm" by (simp add: init_def)
  have al: "store_inv ?s \<and> dimension ?s = dimension (init dm) \<and>
        zip (idx_xb (index ?s)) (chunks ?s) =
          zip (idx_xb (index (init dm))) (chunks (init dm)) @
          concat (map (\<lambda>(e, cs). zip (array_rows e) cs) bs)"
    using store_inv_init assms by (intro run_adds_aligned) (simp_all add: d0)
  then have len: "length (chunks ?s) = ntotal (index ?s)" by (simp add: store_inv_def)
  have z: "zip (idx_xb (index ?s)) (chunks ?s) = concat (map (\<lambda>(e, cs). zip (array_rows e) cs) bs)"
    using al by (simp add: init_def)
  show ?thesis
    using len z ranked_bound[of "index ?s" q k] by (simp add: count_def)
qed

theorem add_keeps_alignment_witness:
  "list_all (add_pre 2)
     [(Arr2 2 [[0, 0], [10, 10]], [[(''text'', PStr ''near'')], [(''text'', PStr ''far'')]]),
      (Arr2 2 [[1, 1]], [[(''text'', PStr ''mid'')]])] \<and>
   length (chunks (run_adds (init 2)
     [(Arr2 2 [[0, 0], [10, 10]], [[(''text'', PStr ''near'')], [(''text'', PStr ''far'')]]),
      (Arr2 2 [[1, 1]], [[(''text'', PStr ''mid'')]])])) = 3 \<and>
   zip (idx_xb (index (run_adds (init 2)
     [(Arr2 2 [[0, 0], [10, 10]], [[(''text'', PStr ''near'')], [(''text'', PStr ''far'')]]),
      (Arr2 2 [[1, 1]], [[(''text'', PStr ''mid'')]])])))
       (chunks (run_adds (init 2)
     [(Arr2 2 [[0, 0], [10, 10]], [[(''text'', PStr ''near'')], [(''text'', PStr ''far'')]]),
      (Arr2 2 [[1, 1]], [[(''text'', PStr ''mid'')]])]))
   = [([0, 0], [(''text'', PStr ''near'')]), ([10, 10], [(''text'', PStr ''far'')]),
      ([1, 1], [(''text'', PStr ''mid'')])]"
  using add_keeps_alignment [of 2
     "[(Arr2 2 [[0, 0], [10, 10]], [[(''text'', PStr ''near'')], [(''text'', PStr ''far'')]]),
      (Arr2 2 [[1, 1]], [[(''text'', PStr ''mid'')]])]"]
  by (simp add: add_def init_def IndexFlatL2_def count_def ntotal_def)

subsection \<open>Rejected additions\<close>

text \<open>
  Claim C2, as stated, fails: when the counts agree and only the length of the vectors
  differs from the dimension, \<open>add\<close> makes no check of its own, and the call fails
  inside the index with its assertion error, not with the store's ShapeMismatch.
\<close>

theorem add_wrong_dimension_counterexample:
  "shape0 (Arr2 3 [[1, 2, 3]]) = length [[(''text'', PStr ''a'')]] \<and>
   length [1, 2, 3 :: real] \<noteq> dimension (init 4) \<and>
   fst (add (init 4) (Arr2 3 [[1, 2, 3]]) [[(''text'', PStr ''a'')]]) = Some FaissAssertion \<and>
   FaissAssertion \<noteq> ShapeMismatch 1 1"
  by (simp add: add_def init_def IndexFlatL2_def)

text \<open>
  Claim C2, amended. An \<open>add\<close> whose number of vectors differs from the number of
  payloads fails with ShapeMismatch; one whose counts agree but whose vectors do not
  have the length of the dimension fails with the index's assertion error. Either way
  the store is left as it was, so \<open>count\<close> and the payload list are unchanged.
\<close>

theorem add_rejects_bad_shapes:
  "(shape0 e \<noteq> length cs \<longrightarrow>
      add s e cs = (Some (ShapeMismatch (shape0 e) (length cs)), s)) \<and>
   (idx_d (index s) = dimension s \<and> wf_array (Arr2 m rs) \<and> length rs = length cs \<and>
    (\<exists>r \<in> set rs. length r \<noteq> dimension s) \<longrightarrow>
      add s (Arr2 m rs) cs = (Some FaissAssertion, s))"
  by (auto simp: add_def list_all_iff)

theorem add_rejects_bad_shapes_witness:
  "shape0 (Arr2 2 [[1, 2], [3, 4]]) \<noteq> length [[(''text'', PStr ''a'')]] \<and>
   add (init 2) (Arr2 2 [[1, 2], [3, 4]]) [[(''text'', PStr ''a'')]] =
     (Some (ShapeMismatch 2 1), init 2) \<and>
   idx_d (index (init 4)) = dimension (init 4) \<and> wf_array (Arr2 3 [[1, 2, 3]]) \<and>
   length [[1, 2, 3 :: real]] = length [[(''text'', PStr ''a'')]] \<and>
   (\<exists>r \<in> set [[1, 2, 3 :: real]]. length r \<noteq> dimension (init 4)) \<and>
   add (init 4) (Arr2 3 [[1, 2, 3]]) [[(''text'', PStr ''a'')]] = (Some FaissAssertion, init 4) \<and>
   fst (count (snd (add (init 4) (Arr2 3 [[1, 2, 3]]) [[(''text'', PStr ''a'')]]))) = 0"
  using add_rejects_bad_shapes [of "Arr2 2 [[1, 2], [3, 4]]" "[[(''text'', PStr ''a'')]]" "init 2"]
    add_rejects_bad_shapes [of _ "[[(''text'', PStr ''a'')]]" "init 4" 3 "[[1, 2, 3]]"]
  by (simp add: init_def IndexFlatL2_def count_def ntotal_def)

subsection \<open>Searching\<close>

lemma sorted_key_hd_least:
  assumes "sorted (map f xs)" and "y \<in> set xs"
  shows "f (hd xs) \<le> f y"
  using assms by (cases xs) auto

lemma ranked_empty:
  "ranked ix q k = [] \<longleftrightarrow>
     k = 0 \<or> list_all (\<lambda>v. flt_max \<le> l2sq q v) (idx_xb ix)"
proof -
  have "length (ranked ix q k) = 0 \<longleftrightarrow>
          k = 0 \<or> length (filter (\<lambda>v. l2sq q v < flt_max) (idx_xb ix)) = 0"
    by (simp only: length_ranked) (auto simp: min_def)
  then show ?thesis
    by (simp add: filter_empty_conv list_all_iff not_less)
qed

lemma ranked_hd_nearest:
  assumes "ranked ix q k \<noteq> []" and "j < ntotal ix"
  shows "l2sq q (idx_xb ix ! hd (ranked ix q k)) \<le> l2sq q (idx_xb ix ! j)"
proof -
  let ?f = "\<lambda>i. l2sq q (idx_xb ix ! i)"
  let ?el = "filter (\<lambda>i. ?f i < flt_max) [0..<ntotal ix]"
  let ?srt = "sort_key ?f ?el"
  from assms(1) have k: "0 < k" and ne: "?srt \<noteq> []"
    by (auto simp: ranked_def)
  have "hd (take k ?srt) = hd ?srt" using k by (cases k) (simp_all add: hd_take)
  then have h: "hd (ranked ix q k) = hd ?srt" by (simp add: ranked_def)
  have "hd ?srt \<in> set ?srt" using ne by (rule hd_in_set)
  then have small: "?f (hd ?srt) < flt_max" by simp
  have "?f (hd ?srt) \<le> ?f j"
  proof (cases "?f j < flt_max")
    case True
    with assms(2) have "j \<in> set ?srt" by simp
    with sorted_sort_key[of ?f ?el] show ?thesis by (rule sorted_key_hd_least)
  next
    case False
    with small show ?thesis by simp
  qed
  with h show ?thesis by simp
qed

text \<open>
  Claim C3. On a non-empty store, for a query of the store's dimension, \<open>search\<close>
  returns matches in non-decreasing order of score, and every match is the one of a
  stored position: its score is the squared L2 distance of the vector stored there to
  the query, as it is, and its text and metadata are those of the payload stored
  there, the empty string and the empty mapping where the payload has none. The first
  match is as close to the query as any stored vector; there is no match at all only
  when the distance of every stored vector has overflowed.
\<close>

theorem search_sorted_scores:
  assumes "store_inv s" and "0 < fst (count s)"
    and "query_ok (dimension s) q" and "0 < top_k"
  shows "\<exists>ms. fst (search s q top_k) = Inr ms \<and>
           sorted (map match_score ms) \<and>
           ((ms = [] \<and> list_all (\<lambda>v. flt_max \<le> l2sq (query_vec q) v) (idx_xb (index s))) \<or>
            (ms \<noteq> [] \<and>
             list_all (\<lambda>v. match_score (hd ms) \<le> l2sq (query_vec q) v) (idx_xb (index s)))) \<and>
           list_all (\<lambda>m. \<exists>i < length (chunks s).
              match_score m = l2sq (query_vec q) (idx_xb (index s) ! i) \<and>
              match_text m = dict_get (chunks s ! i) ''text'' (PStr '''') \<and>
              match_metadata m = dict_get (chunks s ! i) ''metadata'' (PDict [])) ms"
proof -
  let ?r = "ranked (index s) (query_vec q) (nat (min top_k (int (ntotal (index s)))))"
  let ?ms = "map (match_at s (query_vec q)) ?r"
  have ne: "0 < ntotal (index s)" using assms(2) by (simp add: count_def)
  have res: "fst (search s q top_k) = Inr ?ms"
    using assms(1) ne assms(3,4) by (rule search_result)
  have "map match_score ?ms = map (\<lambda>i. l2sq (query_vec q) (idx_xb (index s) ! i)) ?r"
    by (simp add: match_at_def)
  then have srt: "sorted (map match_score ?ms)"
    by (simp only: sorted_ranked)
  have len: "length (chunks s) = ntotal (index s)"
    using assms(1) by (simp add: store_inv_def)
  have "list_all (\<lambda>i. i < length (chunks s)) ?r"
    using ranked_bound[of "index s"] by (simp add: len)
  then have corr: "list_all (\<lambda>m. \<exists>i < length (chunks s).
              match_score m = l2sq (query_vec q) (idx_xb (index s) ! i) \<and>
              match_text m = dict_get (chunks s ! i) ''text'' (PStr '''') \<and>
              match_metadata m = dict_get (chunks s ! i) ''metadata'' (PDict [])) ?ms"
    by (auto simp: list_all_iff match_at_def)
  have kpos: "nat (min top_k (int (ntotal (index s)))) \<noteq> 0"
    using ne assms(4) by simp
  have first: "(?ms = [] \<and> list_all (\<lambda>v. flt_max \<le> l2sq (query_vec q) v) (idx_xb (index s))) \<or>
      (?ms \<noteq> [] \<and>
       list_all (\<lambda>v. match_score (hd ?ms) \<le> l2sq (query_vec q) v) (idx_xb (index s)))"
  proof (cases "?r = []")
    case True
    then have "list_all (\<lambda>v. flt_max \<le> l2sq (query_vec q) v) (idx_xb (index s))"
      using kpos by (simp only: ranked_empty) simp
    with True show ?thesis by simp
  next
    case False
    have "match_score (hd ?ms) = l2sq (query_vec q) (idx_xb (index s) ! hd ?r)"
      using False by (simp add: hd_map match_at_def)
    then have "match_score (hd ?ms) \<le> l2sq (query_vec q) (idx_xb (index s) ! j)"
      if "j < ntotal (index s)" for j
      using ranked_hd_nearest[OF False that] by simp
    then have "list_all (\<lambda>v. match_score (hd ?ms) \<le> l2sq (query_vec q) v)
        (idx_xb (index s))"
      by (simp add: list_all_length ntotal_def)
    with False show ?thesis by simp
  qed
  from res srt first corr show ?thesis by blast
qed

theorem search_sorted_scores_witness:
  "store_inv \<lparr>dimension = 2, index = \<lparr>idx_d = 2, idx_xb = [[10, 10], [0, 0]]\<rparr>,
              chunks = [[(''text'', PStr ''far'')], [(''metadata'', PDict [(''chunk_index'', PInt 1)])]]\<rparr> \<and>
   0 < fst (count \<lparr>dimension = 2, index = \<lparr>idx_d = 2, idx_xb = [[10, 10], [0, 0]]\<rparr>,
              chunks = [[(''text'', PStr ''far'')], [(''metadata'', PDict [(''chunk_index'', PInt 1)])]]\<rparr>) \<and>
   query_ok 2 (Arr1 [1, 1]) \<and> (0::int) < 5 \<and>
   fst (search \<lparr>dimension = 2, index = \<lparr>idx_d = 2, idx_xb = [[10, 10], [0, 0]]\<rparr>,
              chunks = [[(''text'', PStr ''far'')], [(''metadata'', PDict [(''chunk_index'', PInt 1)])]]\<rparr>
          (Arr1 [1, 1]) 5) =
     Inr [\<lparr>match_text = PStr '''', match_metadata = PDict [(''chunk_index'', PInt 1)],
           match_score = 2\<rparr>,
          \<lparr>match_text = PStr ''far'', match_metadata = PDict [], match_score = 162\<rparr>]"
  using search_sorted_scores [of
      "\<lparr>dimension = 2, index = \<lparr>idx_d = 2, idx_xb = [[10, 10], [0, 0]]\<rparr>,
              chunks = [[(''text'', PStr ''far'')], [(''metadata'', PDict [(''chunk_index'', PInt 1)])]]\<rparr>"
      "Arr1 [1, 1]" 5]
  by (simp add: store_inv_def count_def ntotal_def search_def Let_def index_search_row_def
      ranked_def l2sq_def dict_get_def py_index_def flt_max_def)

text \<open>
  Claim C4, as stated, fails: a stored vector whose float32 distance to the query
  overflows comes back from the index as not found and is skipped, so \<open>search\<close> can
  return fewer than \<open>min(top_k, count())\<close> matches. With the vectors \<open>[0]\<close> and
  \<open>[1e20]\<close> stored, the query \<open>[1]\<close> and \<open>top_k = 2\<close>, it returns one match.
\<close>

theorem search_overflow_counterexample:
  "store_inv \<lparr>dimension = 1,
              index = \<lparr>idx_d = 1, idx_xb = [[0], [100000000000000000000]]\<rparr>,
              chunks = [[(''text'', PStr ''a'')], [(''text'', PStr ''b'')]]\<rparr> \<and>
   query_ok 1 (Arr1 [1]) \<and> (0::int) < 2 \<and>
   fst (search \<lparr>dimension = 1,
                 index = \<lparr>idx_d = 1, idx_xb = [[0], [100000000000000000000]]\<rparr>,
                 chunks = [[(''text'', PStr ''a'')], [(''text'', PStr ''b'')]]\<rparr>
          (Arr1 [1]) 2) =
     Inr [\<lparr>match_text = PStr ''a'', match_metadata = PDict [], match_score = 1\<rparr>] \<and>
   min 2 (int (fst (count \<lparr>dimension = 1,
                 index = \<lparr>idx_d = 1, idx_xb = [[0], [100000000000000000000]]\<rparr>,
                 chunks = [[(''text'', PStr ''a'')], [(''text'', PStr ''b'')]]\<rparr>))) = 2"
  by (simp add: store_inv_def count_def ntotal_def search_def Let_def index_search_row_def
      ranked_def l2sq_def dict_get_def py_index_def flt_max_def)

text \<open>
  Claim C4, amended. On an empty store \<open>search\<close> returns the empty list whatever the
  query and \<open>top_k\<close> are. On any store, for a query of the store's dimension and a
  positive \<open>top_k\<close>, it raises nothing and returns \<open>min(top_k, m)\<close> matches, \<open>m\<close> being
  the number of stored vectors whose distance to the query is below the largest
  float32: never more than \<open>min(top_k, count())\<close>, and exactly that many when no
  distance overflows.
\<close>

theorem search_result_count:
  "(fst (count s) = 0 \<longrightarrow> fst (search s q top_k) = Inr []) \<and>
   (store_inv s \<and> query_ok (dimension s) q \<and> 0 < top_k \<longrightarrow>
      (\<exists>ms. fst (search s q top_k) = Inr ms \<and>
            int (length ms) =
              min top_k (int (length (filter (\<lambda>v. l2sq (query_vec q) v < flt_max)
                                       (idx_xb (index s))))) \<and>
            int (length ms) \<le> min top_k (int (fst (count s))) \<and>
            (list_all (\<lambda>v. l2sq (query_vec q) v < flt_max) (idx_xb (index s)) \<longrightarrow>
               int (length ms) = min top_k (int (fst (count s))))))"
proof (intro conjI impI)
  assume "fst (count s) = 0"
  then show "fst (search s q top_k) = Inr []"
    by (simp add: count_def search_empty)
next
  assume a: "store_inv s \<and> query_ok (dimension s) q \<and> 0 < top_k"
  let ?near = "filter (\<lambda>v. l2sq (query_vec q) v < flt_max) (idx_xb (index s))"
  have le: "length ?near \<le> ntotal (index s)"
    by (simp add: ntotal_def)
  have all: "length ?near = ntotal (index s)"
    if "list_all (\<lambda>v. l2sq (query_vec q) v < flt_max) (idx_xb (index s))"
    using that by (simp add: ntotal_def list_all_iff)
  show "\<exists>ms. fst (search s q top_k) = Inr ms \<and>
            int (length ms) = min top_k (int (length ?near)) \<and>
            int (length ms) \<le> min top_k (int (fst (count s))) \<and>
            (list_all (\<lambda>v. l2sq (query_vec q) v < flt_max) (idx_xb (index s)) \<longrightarrow>
               int (length ms) = min top_k (int (fst (count s))))"
  proof (cases "ntotal (index s) = 0")
    case True
    then have "?near = []" by (simp add: ntotal_def)
    with True show ?thesis using a by (simp add: search_empty count_def)
  next
    case False
    then have "fst (search s q top_k) =
           Inr (map (match_at s (query_vec q))
                  (ranked (index s) (query_vec q) (nat (min top_k (int (ntotal (index s)))))))"
      using a by (intro search_result) simp_all
    moreover have "int (min (nat (min top_k (int (ntotal (index s))))) (length ?near)) =
        min top_k (int (length ?near))"
      using a le by linarith
    moreover have "min top_k (int (length ?near)) \<le> min top_k (int (ntotal (index s)))"
      using le by linarith
    ultimately show ?thesis
      using a all by (simp add: length_ranked count_def)
  qed
qed

theorem search_result_count_witness:
  "fst (count (init 4)) = 0 \<and> fst (search (init 4) (Arr1 [1]) (- 3)) = Inr [] \<and>
   store_inv \<lparr>dimension = 2, index = \<lparr>idx_d = 2, idx_xb = [[10, 10], [0, 0]]\<rparr>,
              chunks = [[(''text'', PStr ''far'')], [(''text'', PStr ''near'')]]\<rparr> \<and>
   query_ok 2 (Arr2 2 [[1, 1]]) \<and> (0::int) < 5 \<and>
   list_all (\<lambda>v. l2sq (query_vec (Arr2 2 [[1, 1]])) v < flt_max) [[10, 10], [0, 0]] \<and>
   (\<exists>ms. fst (search \<lparr>dimension = 2, index = \<lparr>idx_d = 2, idx_xb = [[10, 10], [0, 0]]\<rparr>,
              chunks = [[(''text'', PStr ''far'')], [(''text'', PStr ''near'')]]\<rparr>
              (Arr2 2 [[1, 1]]) 5) = Inr ms \<and> length ms = 2)"
  using search_result_count [of "init 4" "Arr1 [1]" "- 3"]
    search_result_count [of
      "\<lparr>dimension = 2, index = \<lparr>idx_d = 2, idx_xb = [[10, 10], [0, 0]]\<rparr>,
              chunks = [[(''text'', PStr ''far'')], [(''text'', PStr ''near'')]]\<rparr>"
      "Arr2 2 [[1, 1]]" 5]
  by (simp add: store_inv_def count_def ntotal_def init_def IndexFlatL2_def l2sq_def flt_max_def,
      blast)

subsection \<open>Counting\<close>

text \<open>
  Claim C5. \<open>count\<close> is 0 on a freshly constructed store, and an \<open>add\<close> that succeeds
  was given as many vectors as payloads and raises \<open>count\<close> by that number.
\<close>

theorem count_after_add:
  "fst (count (init dm)) = 0 \<and>
   (fst (add s e cs) = None \<longrightarrow>
      shape0 e = length cs \<and>
      fst (count (snd (add s e cs))) = fst (count s) + shape0 e)"
  by (cases e)
     (auto simp: count_def init_def IndexFlatL2_def ntotal_def add_def split: if_splits)

theorem count_after_add_witness:
  "fst (count (init 4)) = 0 \<and>
   fst (add (init 4) (Arr2 4 [[1, 0, 0, 0]]) [[(''text'', PStr ''a'')]]) = None \<and>
   fst (count (snd (add (init 4) (Arr2 4 [[1, 0, 0, 0]]) [[(''text'', PStr ''a'')]]))) = 1"
  using count_after_add [of 4 "init 4" "Arr2 4 [[1, 0, 0, 0]]" "[[(''text'', PStr ''a'')]]"]
  by (simp add: add_def init_def IndexFlatL2_def count_def ntotal_def)

subsection \<open>Saving and loading\<close>

text \<open>
  Claim C6. Saving a store to a directory and loading that directory with the store's
  dimension gives back a store with the same \<open>count\<close> on which every search returns
  the same matches, with the same text, metadata and score, as on the original.
\<close>

theorem save_load_roundtrip:
  "\<exists>s'. load (save s directory fs) directory (dimension s) = Inr s' \<and>
         fst (count s') = fst (count s) \<and>
         (\<forall>q top_k. fst (search s' q top_k) = fst (search s q top_k))"
proof -
  have "load (save s directory fs) directory (dimension s) = Inr s"
    by (simp add: load_def save_def path_join_def init_def)
  then show ?thesis by simp
qed

theorem save_load_roundtrip_witness:
  "load (save \<lparr>dimension = 2, index = \<lparr>idx_d = 2, idx_xb = [[0, 0], [10, 10]]\<rparr>,
               chunks = [[(''text'', PStr ''near'')], [(''text'', PStr ''far'')]]\<rparr>
           ''data/store'' Map.empty) ''data/store'' 2 =
     Inr \<lparr>dimension = 2, index = \<lparr>idx_d = 2, idx_xb = [[0, 0], [10, 10]]\<rparr>,
          chunks = [[(''text'', PStr ''near'')], [(''text'', PStr ''far'')]]\<rparr> \<and>
   load Map.empty ''data/store'' 2 = Inl (ReadError ''data/store/index.faiss'')"
  using save_load_roundtrip [of
      "\<lparr>dimension = 2, index = \<lparr>idx_d = 2, idx_xb = [[0, 0], [10, 10]]\<rparr>,
               chunks = [[(''text'', PStr ''near'')], [(''text'', PStr ''far'')]]\<rparr>"
      "''data/store''" Map.empty]
  by (simp add: load_def save_def path_join_def init_def)

subsection \<open>Reads leave the store alone\<close>

text \<open>
  Claim C7. \<open>search\<close> and \<open>count\<close> leave the store as they found it: its dimension,
  its indexed vectors and its payload list are the same after the call, whatever the
  arguments and whether or not the call raises.
\<close>

theorem search_count_pure:
  "snd (search s q top_k) = s \<and> snd (count s) = s"
  by (simp add: search_def count_def Let_def split: sum.splits list.splits prod.splits)

theorem search_count_pure_witness:
  "snd (search (snd (add (init 2) (Arr2 2 [[0, 0], [10, 10]])
                  [[(''text'', PStr ''near'')], [(''text'', PStr ''far'')]]))
          (Arr1 [1, 1]) 1) =
     \<lparr>dimension = 2, index = \<lparr>idx_d = 2, idx_xb = [[0, 0], [10, 10]]\<rparr>,
      chunks = [[(''text'', PStr ''near'')], [(''text'', PStr ''far'')]]\<rparr> \<and>
   fst (search (snd (add (init 2) (Arr2 2 [[0, 0], [10, 10]])
                  [[(''text'', PStr ''near'')], [(''text'', PStr ''far'')]]))
          (Arr1 [1, 1]) 1) =
     Inr [\<lparr>match_text = PStr ''near'', match_metadata = PDict [], match_score = 2\<rparr>]"
  using search_count_pure [of
      "snd (add (init 2) (Arr2 2 [[0, 0], [10, 10]])
                  [[(''text'', PStr ''near'')], [(''text'', PStr ''far'')]])"
      "Arr1 [1, 1]" 1]
  by (simp add: add_def init_def IndexFlatL2_def search_def ntotal_def Let_def
      index_search_row_def ranked_def l2sq_def dict_get_def py_index_def flt_max_def)

section \<open>Properties of the chunker\<close>

lemma length_chunks_of_groups: "length (chunks_of_groups source gs) = length gs"
  by (simp add: chunks_of_groups_def)

lemma chunks_of_groups_snoc:
  "chunks_of_groups source (gs @ hs) =
     chunks_of_groups source gs @
     map (\<lambda>(i, g). build_chunk g (int i) source) (enumerate (length gs) hs)"
  by (simp add: chunks_of_groups_def enumerate_append_eq)

lemma group_ok_single: "group_ok chunk_size [s]"
  by (simp add: group_ok_def)

lemma group_ok_small:
  "g \<noteq> [] \<Longrightarrow> list_all (\<lambda>s. estimate_tokens s < chunk_size) g \<Longrightarrow> group_ok chunk_size g"
  by (simp add: group_ok_def)

lemma chunk_loop_groups:
  "chunk_loop chunk_size source (chunks_of_groups source gs) cur tok rest = (cks', cur', tok') \<Longrightarrow>
   list_all (group_ok chunk_size) gs \<Longrightarrow>
   list_all (\<lambda>s. estimate_tokens s < chunk_size) cur \<Longrightarrow>
   \<exists>gs'. cks' = chunks_of_groups source gs' \<and> list_all (group_ok chunk_size) gs' \<and>
         list_all (\<lambda>s. estimate_tokens s < chunk_size) cur' \<and>
         concat gs' @ cur' = concat gs @ cur @ rest"
proof (induction rest arbitrary: gs cur tok)
  case Nil
  then show ?case by auto
next
  case (Cons sentence rest)
  show ?case
  proof (cases "chunk_size \<le> estimate_tokens sentence")
    case big: True
    show ?thesis
    proof (cases "cur = []")
      case True
      have run: "chunk_loop chunk_size source (chunks_of_groups source (gs @ [[sentence]])) cur tok rest = (cks', cur', tok')"
        using Cons.prems(1) big True
        by (simp add: Let_def chunks_of_groups_snoc length_chunks_of_groups)
      have ok: "list_all (group_ok chunk_size) (gs @ [[sentence]])"
        using Cons.prems(2) group_ok_single by simp
      from Cons.IH[OF run ok Cons.prems(3)] True show ?thesis by auto
    next
      case False
      have run: "chunk_loop chunk_size source (chunks_of_groups source ((gs @ [cur]) @ [[sentence]])) [] 0 rest = (cks', cur', tok')"
        using Cons.prems(1) big False
        by (simp add: Let_def chunks_of_groups_snoc length_chunks_of_groups)
      have ok: "list_all (group_ok chunk_size) ((gs @ [cur]) @ [[sentence]])"
        using Cons.prems(2) group_ok_single group_ok_small[OF False Cons.prems(3)] by simp
      from Cons.IH[OF run ok] show ?thesis by auto
    qed
  next
    case small: False
    show ?thesis
    proof (cases "tok + estimate_tokens sentence > chunk_size \<and> cur \<noteq> []")
      case True
      have run: "chunk_loop chunk_size source (chunks_of_groups source (gs @ [cur])) [sentence] (0 + estimate_tokens sentence) rest = (cks', cur', tok')"
        using Cons.prems(1) small True
        by (simp add: Let_def chunks_of_groups_snoc length_chunks_of_groups)
      have ok: "list_all (group_ok chunk_size) (gs @ [cur])"
        using Cons.prems(2) group_ok_small[OF _ Cons.prems(3)] True by simp
      have c: "list_all (\<lambda>s. estimate_tokens s < chunk_size) [sentence]"
        using small by simp
      from Cons.IH[OF run ok c] show ?thesis by auto
    next
      case False
      have run: "chunk_loop chunk_size source (chunks_of_groups source gs) (cur @ [sentence]) (tok + estimate_tokens sentence) rest = (cks', cur', tok')"
        using Cons.prems(1) small False
        by (auto simp add: Let_def)
      have c: "list_all (\<lambda>s. estimate_tokens s < chunk_size) (cur @ [sentence])"
        using small Cons.prems(3) by simp
      from Cons.IH[OF run Cons.prems(2) c] show ?thesis by auto
    qed
  qed
qed

lemma chunk_text_groups:
  "\<exists>gs. chunk_text txt chunk_size source = chunks_of_groups source gs \<and>
        list_all (group_ok chunk_size) gs \<and> concat gs = split_sentences txt"
proof -
  obtain cks cur tok where
    run: "chunk_loop chunk_size source [] [] 0 (split_sentences txt) = (cks, cur, tok)"
    by (cases "chunk_loop chunk_size source [] [] 0 (split_sentences txt)") auto
  have e: "chunks_of_groups source [] = []" by (simp add: chunks_of_groups_def)
  from run have "chunk_loop chunk_size source (chunks_of_groups source []) [] 0 (split_sentences txt) = (cks, cur, tok)"
    by (simp add: e)
  from chunk_loop_groups[OF this] obtain gs where
    gs: "cks = chunks_of_groups source gs" "list_all (group_ok chunk_size) gs"
        "list_all (\<lambda>s. estimate_tokens s < chunk_size) cur"
        "concat gs @ cur = split_sentences txt"
    by auto
  show ?thesis
  proof (cases "cur = []")
    case True
    with run gs show ?thesis by (auto simp: chunk_text_def)
  next
    case False
    have "chunk_text txt chunk_size source = chunks_of_groups source (gs @ [cur])"
      using run gs False
      by (simp add: chunk_text_def chunks_of_groups_snoc length_chunks_of_groups)
    moreover have "list_all (group_ok chunk_size) (gs @ [cur])"
      using gs(2) group_ok_small[OF False gs(3)] by simp
    moreover have "concat (gs @ [cur]) = split_sentences txt" using gs by simp
    ultimately show ?thesis by blast
  qed
qed

lemma re_split_chars:
  "p \<in> set (re_split after_punct cur cs) \<Longrightarrow> set p \<subseteq> set cur \<union> set cs"
proof (induction after_punct cur cs rule: re_split.induct)
  case (1 after_punct cur)
  then show ?case by simp
next
  case (2 after_punct cur c cs)
  show ?case
  proof (cases "after_punct \<and> is_space c")
    case True
    with "2.prems" have "p = cur \<or> p \<in> set (re_split False [] (dropWhile is_space cs))"
      by simp
    then show ?thesis
    proof
      assume "p = cur"
      then show ?thesis by auto
    next
      assume "p \<in> set (re_split False [] (dropWhile is_space cs))"
      from "2.IH"(1)[OF True this] have "set p \<subseteq> set (dropWhile is_space cs)" by simp
      then show ?thesis using set_dropWhileD[of _ is_space cs] by auto
    qed
  next
    case False
    with "2.prems" have "p \<in> set (re_split (is_punct c) (cur @ [c]) cs)" by auto
    from "2.IH"(2)[OF False this] show ?thesis by auto
  qed
qed

lemma strip_spaces:
  assumes "list_all is_space p"
  shows "strip p = []"
proof -
  have dw: "dropWhile is_space p = []"
    using assms unfolding dropWhile_eq_Nil_conv list_all_iff .
  show ?thesis unfolding strip_def dw by simp
qed

lemma split_sentences_blank:
  assumes "list_all is_space txt"
  shows "split_sentences txt = []"
proof -
  have "strip p = []" if "p \<in> set (re_split False [] txt)" for p
  proof -
    from re_split_chars[OF that] have "set p \<subseteq> set txt" by simp
    with assms have "list_all is_space p" by (auto simp: list_all_iff)
    then show ?thesis by (rule strip_spaces)
  qed
  then have "filter (\<lambda>s. strip s \<noteq> []) (re_split False [] txt) = []"
    by (simp add: filter_empty_conv)
  then show ?thesis by (simp add: split_sentences_def)
qed

lemma chunk_index_build_chunk: "chunk_index (build_chunk g i source) = Some (PInt i)"
  by (simp add: chunk_index_def build_chunk_def Let_def)

lemma chunk_index_groups:
  "i < length gs \<Longrightarrow> chunk_index (chunks_of_groups source gs ! i) = Some (PInt (int i))"
  by (simp add: chunks_of_groups_def nth_enumerate_eq chunk_index_build_chunk)

text \<open>
  Claim C9. The chunks are built, in order, from consecutive groups of whole
  sentences: the groups laid end to end are the sentences of the text, no group is
  empty, the chunk at position \<open>i\<close> is the record
  \<open>{text, metadata: {chunk_index, source, estimated_tokens}}\<close> of the \<open>i\<close>-th group, its
  text the group's sentences joined by a space. So no sentence is divided between two
  chunks; a sentence that alone reaches the budget is not divided either, it is a
  group, and a chunk, of its own.
\<close>

theorem chunk_text_whole_sentences:
  "\<exists>groups.
     concat groups = split_sentences txt \<and>
     list_all (group_ok chunk_size) groups \<and>
     chunk_text txt chunk_size source =
       map (\<lambda>(i, g).
              [(''text'', PStr (join_space g)),
               (''metadata'', PDict [(''chunk_index'', PInt (int i)),
                                    (''source'', PStr source),
                                    (''estimated_tokens'', PInt (estimate_tokens (join_space g)))])])
         (enumerate 0 groups)"
proof -
  from chunk_text_groups[of _ chunk_size source] obtain gs where
    gs: "chunk_text txt chunk_size source = chunks_of_groups source gs"
        "list_all (group_ok chunk_size) gs" "concat gs = split_sentences txt"
    by blast
  have "chunks_of_groups source gs =
       map (\<lambda>(i, g).
              [(''text'', PStr (join_space g)),
               (''metadata'', PDict [(''chunk_index'', PInt (int i)),
                                    (''source'', PStr source),
                                    (''estimated_tokens'', PInt (estimate_tokens (join_space g)))])])
         (enumerate 0 gs)"
    by (simp add: chunks_of_groups_def build_chunk_def Let_def)
  with gs show ?thesis by auto
qed

theorem chunk_text_whole_sentences_witness:
  "split_sentences ''Hi there. How are you?  Fine!'' = [''Hi there.'', ''How are you?'', ''Fine!''] \<and>
   (\<exists>groups.
     concat groups = [''Hi there.'', ''How are you?'', ''Fine!''] \<and>
     list_all (group_ok 3) groups \<and>
     chunk_text ''Hi there. How are you?  Fine!'' 3 ''doc'' =
       map (\<lambda>(i, g).
              [(''text'', PStr (join_space g)),
               (''metadata'', PDict [(''chunk_index'', PInt (int i)),
                                    (''source'', PStr ''doc''),
                                    (''estimated_tokens'', PInt (estimate_tokens (join_space g)))])])
         (enumerate 0 groups))"
proof -
  have s: "split_sentences ''Hi there. How are you?  Fine!'' = [''Hi there.'', ''How are you?'', ''Fine!'']"
    by code_simp
  show ?thesis
    using chunk_text_whole_sentences [of "''Hi there. How are you?  Fine!''" 3 "''doc''"]
    by (simp only: s simp_thms)
qed

text \<open>
  Claim C10. The chunk at position \<open>i\<close> of the list that \<open>chunk_text\<close> returns carries
  \<open>chunk_index\<close> \<open>i\<close>, so the indices count up from 0 along the list; and a text that
  is empty or made of whitespace only gives no chunk.
\<close>

theorem chunk_index_is_position:
  "(i < length (chunk_text txt chunk_size source) \<longrightarrow>
      chunk_index (chunk_text txt chunk_size source ! i) = Some (PInt (int i))) \<and>
   (list_all is_space txt \<longrightarrow> chunk_text txt chunk_size source = [])"
proof (intro conjI impI)
  assume i: "i < length (chunk_text txt chunk_size source)"
  from chunk_text_groups[of _ chunk_size source] obtain gs where
    gs: "chunk_text txt chunk_size source = chunks_of_groups source gs" by blast
  with i have "i < length gs" by (simp add: length_chunks_of_groups)
  then show "chunk_index (chunk_text txt chunk_size source ! i) = Some (PInt (int i))"
    by (simp add: gs chunk_index_groups)
next
  assume "list_all is_space txt"
  then have "split_sentences txt = []" by (rule split_sentences_blank)
  then show "chunk_text txt chunk_size source = []"
    by (simp add: chunk_text_def)
qed

theorem chunk_index_is_position_witness:
  "2 < length (chunk_text ''Hi there. How are you?  Fine!'' 3 ''doc'') \<and>
   chunk_index (chunk_text ''Hi there. How are you?  Fine!'' 3 ''doc'' ! 2) = Some (PInt 2) \<and>
   list_all is_space [CHR '' '', CHR 0x0A, CHR 0x09] \<and>
   chunk_text [CHR '' '', CHR 0x0A, CHR 0x09] 400 ''doc'' = [] \<and>
   chunk_text [] 400 ''doc'' = []"
proof -
  have h1: "2 < length (chunk_text ''Hi there. How are you?  Fine!'' 3 ''doc'')"
    by code_simp
  have h2: "list_all is_space [CHR '' '', CHR 0x0A, CHR 0x09]"
    by code_simp
  have h3: "list_all is_space []" by simp
  show ?thesis
    using h1 h2 h3
      chunk_index_is_position [of 2 "''Hi there. How are you?  Fine!''" 3 "''doc''"]
      chunk_index_is_position [of _ "[CHR '' '', CHR 0x0A, CHR 0x09]" 400 "''doc''"]
      chunk_index_is_position [of _ "[]" 400 "''doc''"]
    by simp
qed

section \<open>Properties of the growth rate\<close>

lemma overflow_threshold_pow: "overflow_threshold = 2 ^ 1024"
  by (simp add: overflow_threshold_def)

















end
